theory Spec2Isabelle
  imports Main "HOL-Library.Word"
begin

section \<open>JavaScript values the plugin handles\<close>

text \<open>
  The plugin is one TypeScript file, \<^verbatim>\<open>main.ts\<close>. Its strings are JavaScript strings:
  sequences of 16-bit code units. \<open>js\<close> writes an ASCII literal as such a string.
\<close>

type_synonym code_unit = "16 word"
type_synonym jsstring = "code_unit list"

definition js :: "string \<Rightarrow> jsstring" where
  "js s = map of_char s"

text \<open>
  The class \<^verbatim>\<open>\s\<close> of a regular expression, which is also the white space that
  \<^verbatim>\<open>parseInt\<close> skips: TAB, LF, VT, FF, CR, SPACE, NBSP, the other space separators
  (U+1680, U+2000 to U+200A, U+202F, U+205F, U+3000), the line and paragraph separators
  (U+2028, U+2029) and the byte order mark (U+FEFF).
\<close>

definition isWhiteSpace :: "code_unit \<Rightarrow> bool" where
  "isWhiteSpace c \<longleftrightarrow>
     c \<in> {0x09, 0x0A, 0x0B, 0x0C, 0x0D, 0x20, 0xA0, 0x1680,
          0x2028, 0x2029, 0x202F, 0x205F, 0x3000, 0xFEFF}
     \<or> (0x2000 \<le> c \<and> c \<le> 0x200A)"

text \<open>
  The values a settings field holds. Both fields are declared \<^verbatim>\<open>number\<close>; the code
  fills them from the defaults, from \<^verbatim>\<open>parseInt\<close> and from the persisted JSON. A
  JavaScript number is a double. \<^verbatim>\<open>parseInt\<close> returns a whole number, \<^verbatim>\<open>Infinity\<close>,
  \<^verbatim>\<open>-Infinity\<close> or \<^verbatim>\<open>NaN\<close>, and JSON holds whole numbers and \<^verbatim>\<open>null\<close> when the
  plugin alone has written the data file: \<open>Num n\<close> is the whole number \<open>n\<close>, which is
  a double whenever an operation of the model has produced it.
\<close>

datatype jsval = Num int | PosInf | NegInf | NaN | Null

text \<open>
  The double nearest to an integer. A double has 53 significant bits: an integer of
  more bits loses the low ones, rounded to nearest with ties to the even neighbour, and
  a result of \<open>2 ^ 1024\<close> or more is infinite. \<open>bits a\<close> is the number of bits of
  \<open>a\<close>, and \<open>round_half_even a e\<close> is \<open>a / 2 ^ e\<close> rounded.
\<close>

fun bits :: "nat \<Rightarrow> nat" where
  "bits n = (if n = 0 then 0 else Suc (bits (n div 2)))"

declare bits.simps [simp del]

definition round_half_even :: "nat \<Rightarrow> nat \<Rightarrow> nat" where
  "round_half_even a e =
     (let q = a div 2 ^ e; r = a mod 2 ^ e
      in if 2 * r < 2 ^ e then q
         else if 2 ^ e < 2 * r then q + 1
         else if even q then q else q + 1)"

definition to_double :: "int \<Rightarrow> jsval" where
  "to_double n =
     (let a = nat \<bar>n\<bar>;
          e = bits a - 53;
          m = round_half_even a e * 2 ^ e
      in if 2 ^ 1024 \<le> m then (if n < 0 then NegInf else PosInf)
         else Num (if n < 0 then - int m else int m))"

text \<open>
  \<^verbatim>\<open>JSON.stringify\<close> writes \<^verbatim>\<open>NaN\<close>, \<^verbatim>\<open>Infinity\<close> and \<^verbatim>\<open>-Infinity\<close> as \<^verbatim>\<open>null\<close>.
\<close>

datatype json = JNumber int | JNull

fun to_json :: "jsval \<Rightarrow> json" where
  "to_json (Num n) = JNumber n"
| "to_json PosInf = JNull"
| "to_json NegInf = JNull"
| "to_json NaN = JNull"
| "to_json Null = JNull"

fun of_json :: "json \<Rightarrow> jsval" where
  "of_json (JNumber n) = Num n"
| "of_json JNull = Null"

text \<open>
  \<^verbatim>\<open>x * k\<close> for a field \<open>x\<close> and a whole numeric literal \<open>k\<close>: the product of two
  doubles is the double nearest to the exact product; \<^verbatim>\<open>null\<close> counts as 0.
\<close>

fun js_times :: "jsval \<Rightarrow> int \<Rightarrow> jsval" where
  "js_times (Num n) k = to_double (n * k)"
| "js_times PosInf k = (if 0 < k then PosInf else if k < 0 then NegInf else NaN)"
| "js_times NegInf k = (if 0 < k then NegInf else if k < 0 then PosInf else NaN)"
| "js_times NaN k = NaN"
| "js_times Null k = Num 0"

text \<open>\<^verbatim>\<open>n >= x\<close> for an array length \<open>n\<close>: every comparison with \<^verbatim>\<open>NaN\<close> is false.\<close>

fun js_ge :: "nat \<Rightarrow> jsval \<Rightarrow> bool" where
  "js_ge n (Num t) \<longleftrightarrow> t \<le> int n"
| "js_ge n PosInf \<longleftrightarrow> False"
| "js_ge n NegInf \<longleftrightarrow> True"
| "js_ge n NaN \<longleftrightarrow> False"
| "js_ge n Null \<longleftrightarrow> True"

text \<open>\<^verbatim>\<open>x > 0\<close>, and the same for a number that is finite.\<close>

fun is_positive :: "jsval \<Rightarrow> bool" where
  "is_positive (Num n) \<longleftrightarrow> 0 < n"
| "is_positive PosInf \<longleftrightarrow> True"
| "is_positive NegInf \<longleftrightarrow> False"
| "is_positive NaN \<longleftrightarrow> False"
| "is_positive Null \<longleftrightarrow> False"

fun finite_positive :: "jsval \<Rightarrow> bool" where
  "finite_positive (Num n) \<longleftrightarrow> 0 < n"
| "finite_positive PosInf \<longleftrightarrow> False"
| "finite_positive NegInf \<longleftrightarrow> False"
| "finite_positive NaN \<longleftrightarrow> False"
| "finite_positive Null \<longleftrightarrow> False"

subsection \<open>\<^verbatim>\<open>parseInt(value)\<close> with no radix\<close>

text \<open>
  Leading white space is skipped, then an optional sign, then \<^verbatim>\<open>0x\<close> or \<^verbatim>\<open>0X\<close>
  switches to radix 16; the longest run of digits of the radix is the number, whatever
  follows is ignored, and no digit at all gives \<^verbatim>\<open>NaN\<close>. The result is a double:
  the one nearest to the integer that the digits denote.
\<close>

definition digit_val :: "nat \<Rightarrow> code_unit \<Rightarrow> nat option" where
  "digit_val R c =
     (let d = (if 0x30 \<le> c \<and> c \<le> 0x39 then Some (unat c - 0x30)
               else if 0x61 \<le> c \<and> c \<le> 0x7A then Some (unat c - 0x61 + 10)
               else if 0x41 \<le> c \<and> c \<le> 0x5A then Some (unat c - 0x41 + 10)
               else None)
      in case d of None \<Rightarrow> None | Some v \<Rightarrow> if v < R then Some v else None)"

definition digits_value :: "nat \<Rightarrow> jsstring \<Rightarrow> int" where
  "digits_value R Z =
     foldl (\<lambda>a c. a * int R + int (case digit_val R c of None \<Rightarrow> 0 | Some d \<Rightarrow> d)) 0 Z"

definition parseInt :: "jsstring \<Rightarrow> jsval" where
  "parseInt inputString =
     (let S = dropWhile isWhiteSpace inputString;
          sign = (if S \<noteq> [] \<and> hd S = 0x2D then - 1 else 1 :: int);
          S = (if S \<noteq> [] \<and> (hd S = 0x2B \<or> hd S = 0x2D) then tl S else S);
          hex = (take 2 S = [0x30, 0x78] \<or> take 2 S = [0x30, 0x58]);
          R = (if hex then 16 else 10);
          S = (if hex then drop 2 S else S);
          Z = takeWhile (\<lambda>c. digit_val R c \<noteq> None) S
      in if Z = [] then NaN else to_double (sign * digits_value R Z))"

section \<open>The plugin and its host\<close>

record MyPluginSettings =
  timeInterval :: jsval
  wordCountThreshold :: jsval

definition DEFAULT_SETTINGS :: MyPluginSettings where
  "DEFAULT_SETTINGS = \<lparr>timeInterval = Num 5, wordCountThreshold = Num 500\<rparr>"

text \<open>
  What \<^verbatim>\<open>loadData()\<close> returns: nothing (\<^verbatim>\<open>null\<close>, no data file) or an object that
  has some of the two keys.
\<close>

record persisted =
  p_timeInterval :: "json option"
  p_wordCountThreshold :: "json option"

text \<open>
  A timeout pending in the host: the handle \<^verbatim>\<open>setTimeout\<close> returned, the time of the
  call and the delay asked for. The plugin registers one callback only with
  \<^verbatim>\<open>setTimeout\<close>, the one that calls \<^verbatim>\<open>triggerQuiz\<close>, so an entry needs no callback.
\<close>

record timeout =
  handle :: nat
  set_at :: nat
  delay :: jsval

datatype error = ContentReadError

text \<open>
  The state: the two fields of \<^verbatim>\<open>MyPlugin\<close> (\<open>settings\<close>, \<open>timer\<close>) and what the
  code reaches in the host: the data file, the clock in milliseconds, the pending
  timeouts, the next handle, the number of times \<^verbatim>\<open>triggerQuiz\<close> has run, and
  the rejections of promises that nothing handled. \<open>host_delay\<close> is a property of the
  host that never changes: the milliseconds it waits when the delay asked for is not a
  whole number from 1 to \<open>2 ^ 31 - 1\<close>.
\<close>

record world =
  settings :: MyPluginSettings
  timer :: "nat option"
  data :: "persisted option"
  clock :: nat
  timeouts :: "timeout list"
  next_handle :: nat
  quizzes :: nat
  unhandled :: "error list"
  host_delay :: "jsval \<Rightarrow> nat"

subsection \<open>Settings: \<^verbatim>\<open>loadSettings\<close>, \<^verbatim>\<open>saveSettings\<close>\<close>

text \<open>\<^verbatim>\<open>Object.assign({}, DEFAULT_SETTINGS, await this.loadData())\<close>\<close>

definition loadSettings :: "world \<Rightarrow> world" where
  "loadSettings w =
     w\<lparr>settings :=
        (case data w of
           None \<Rightarrow> DEFAULT_SETTINGS
         | Some p \<Rightarrow>
             \<lparr>timeInterval =
                (case p_timeInterval p of
                   None \<Rightarrow> timeInterval DEFAULT_SETTINGS | Some v \<Rightarrow> of_json v),
              wordCountThreshold =
                (case p_wordCountThreshold p of
                   None \<Rightarrow> wordCountThreshold DEFAULT_SETTINGS | Some v \<Rightarrow> of_json v)\<rparr>)\<rparr>"

text \<open>\<^verbatim>\<open>this.saveData(this.settings)\<close>: the settings object is written as JSON.\<close>

definition saveSettings :: "world \<Rightarrow> world" where
  "saveSettings w =
     w\<lparr>data :=
        Some \<lparr>p_timeInterval = Some (to_json (timeInterval (settings w))),
              p_wordCountThreshold = Some (to_json (wordCountThreshold (settings w)))\<rparr>\<rparr>"

subsection \<open>The quiz trigger\<close>

definition triggerQuiz :: "world \<Rightarrow> world" where
  "triggerQuiz w = w\<lparr>quizzes := quizzes w + 1\<rparr>"

subsection \<open>Word count: \<^verbatim>\<open>handleNoteChange\<close>\<close>

text \<open>
  \<^verbatim>\<open>content.split(/\s+/)\<close>: the text up to the next run of white space is a token, the
  run is skipped, and so on; the text after the last run is the last token. A string
  that starts or ends with white space has an empty first or last token, and the
  empty string gives one empty token.
\<close>

function split_ws :: "jsstring \<Rightarrow> jsstring list" where
  "split_ws s =
     (let tok = takeWhile (\<lambda>c. \<not> isWhiteSpace c) s;
          rest = dropWhile (\<lambda>c. \<not> isWhiteSpace c) s
      in if rest = [] then [tok] else tok # split_ws (dropWhile isWhiteSpace rest))"
  by pat_completeness auto
termination
proof (relation "measure length")
  show "wf (measure length)" by simp
next
  fix s :: jsstring and tok rest
  assume r: "rest = dropWhile (\<lambda>c. \<not> isWhiteSpace c) s" and ne: "rest \<noteq> []"
  from ne obtain c cs where rc: "rest = c # cs" by (cases rest) auto
  have "isWhiteSpace c"
    using r rc by (auto simp: dropWhile_eq_Cons_conv dest: sym)
  then have "length (dropWhile isWhiteSpace rest) \<le> length cs"
    using rc by (simp add: length_dropWhile_le)
  moreover have "length rest \<le> length s"
    using r by (simp add: length_dropWhile_le)
  ultimately show "(dropWhile isWhiteSpace rest, s) \<in> measure length"
    using rc by simp
qed

declare split_ws.simps [simp del]

text \<open>\<^verbatim>\<open>content.split(/\s+/).filter(Boolean).length\<close>: the empty string is falsy.\<close>

definition wordCount :: "jsstring \<Rightarrow> nat" where
  "wordCount content = length (filter (\<lambda>t. t \<noteq> []) (split_ws content))"

text \<open>
  \<open>handleNoteChange\<close> is \<^verbatim>\<open>async\<close>: it awaits the host's \<^verbatim>\<open>vault.read(file)\<close>, whose
  outcome \<open>rd\<close> is the content or a rejection. The code has no \<^verbatim>\<open>try\<close>: a rejection
  ends the function there and becomes the rejection of its own promise (\<open>Inl\<close>).
\<close>

definition handleNoteChange :: "error + jsstring \<Rightarrow> world \<Rightarrow> error + world" where
  "handleNoteChange rd w =
     (case rd of
        Inl e \<Rightarrow> Inl e
      | Inr content \<Rightarrow>
          if js_ge (wordCount content) (wordCountThreshold (settings w))
          then Inr (triggerQuiz w) else Inr w)"

text \<open>
  The listener of the vault's \<^verbatim>\<open>modify\<close> event calls \<^verbatim>\<open>this.handleNoteChange(file)\<close>
  and drops the promise: the listener returns normally, and a rejection is left to the
  runtime as an unhandled one.
\<close>

definition on_modify :: "error + jsstring \<Rightarrow> world \<Rightarrow> world" where
  "on_modify rd w =
     (case handleNoteChange rd w of
        Inl e \<Rightarrow> w\<lparr>unhandled := unhandled w @ [e]\<rparr>
      | Inr w' \<Rightarrow> w')"

subsection \<open>The timer: \<^verbatim>\<open>startTimer\<close>\<close>

text \<open>
  The host's timer facility, as the plugin uses it: \<^verbatim>\<open>setTimeout\<close> records the
  request and returns a new handle; \<^verbatim>\<open>clearTimeout\<close> removes the request with that
  handle, if it is pending.
\<close>

definition setTimeout :: "jsval \<Rightarrow> world \<Rightarrow> nat \<times> world" where
  "setTimeout d w =
     (next_handle w,
      w\<lparr>timeouts := timeouts w @ [\<lparr>handle = next_handle w, set_at = clock w, delay = d\<rparr>],
        next_handle := next_handle w + 1\<rparr>)"

definition clearTimeout :: "nat \<Rightarrow> world \<Rightarrow> world" where
  "clearTimeout h w = w\<lparr>timeouts := filter (\<lambda>t. handle t \<noteq> h) (timeouts w)\<rparr>"

text \<open>
  The host keeps the delay of a timeout as a signed 32-bit number of milliseconds. A
  delay that is a whole number from 1 to \<open>2 ^ 31 - 1\<close> is waited for as it is. What
  becomes of any other delay is the host's affair, \<open>host\<close>. The plugin calls
  \<^verbatim>\<open>window.setTimeout\<close>, which takes the delay modulo \<open>2 ^ 32\<close> as a signed 32-bit
  number and waits 0 ms when the result is negative, and when the delay is \<^verbatim>\<open>NaN\<close> or
  infinite: that is \<open>window_delay\<close>. The timeout is due when the milliseconds to wait
  have passed since the call.
\<close>

definition timeout_ms :: "(jsval \<Rightarrow> nat) \<Rightarrow> jsval \<Rightarrow> nat" where
  "timeout_ms host d =
     (case d of
        Num n \<Rightarrow> if 1 \<le> n \<and> n \<le> 2147483647 then nat n else host d
      | _ \<Rightarrow> host d)"

definition window_delay :: "jsval \<Rightarrow> nat" where
  "window_delay d = (case d of Num n \<Rightarrow> nat (sint (word_of_int n :: 32 word)) | _ \<Rightarrow> 0)"

definition due :: "(jsval \<Rightarrow> nat) \<Rightarrow> timeout \<Rightarrow> nat" where
  "due host t = set_at t + timeout_ms host (delay t)"

definition startTimer :: "world \<Rightarrow> world" where
  "startTimer w =
     (let w1 = (case timer w of None \<Rightarrow> w | Some h \<Rightarrow> clearTimeout h w);
          (h, w2) = setTimeout (js_times (timeInterval (settings w1)) 60000) w1
      in w2\<lparr>timer := Some h\<rparr>)"

text \<open>
  \<open>d\<close> milliseconds pass: every pending timeout that is due by then runs its callback,
  \<^verbatim>\<open>() => { this.triggerQuiz(); }\<close>, once, and is pending no more. The callback sets no
  timeout and leaves \<open>timer\<close> as it is.
\<close>

definition elapse :: "nat \<Rightarrow> world \<Rightarrow> world" where
  "elapse d w =
     (let now = clock w + d;
          fired = filter (\<lambda>t. due (host_delay w) t \<le> now) (timeouts w);
          w1 = w\<lparr>clock := now,
                 timeouts := filter (\<lambda>t. \<not> due (host_delay w) t \<le> now) (timeouts w)\<rparr>
      in fold (\<lambda>t. triggerQuiz) fired w1)"

subsection \<open>The settings tab: the two \<^verbatim>\<open>onChange\<close> handlers\<close>

definition onChange_timeInterval :: "jsstring \<Rightarrow> world \<Rightarrow> world" where
  "onChange_timeInterval v w =
     saveSettings (w\<lparr>settings := (settings w)\<lparr>timeInterval := parseInt v\<rparr>\<rparr>)"

definition onChange_wordCountThreshold :: "jsstring \<Rightarrow> world \<Rightarrow> world" where
  "onChange_wordCountThreshold v w =
     saveSettings (w\<lparr>settings := (settings w)\<lparr>wordCountThreshold := parseInt v\<rparr>\<rparr>)"

datatype field = TimeInterval | WordCountThreshold

fun onChange :: "field \<Rightarrow> jsstring \<Rightarrow> world \<Rightarrow> world" where
  "onChange TimeInterval v w = onChange_timeInterval v w"
| "onChange WordCountThreshold v w = onChange_wordCountThreshold v w"

fun get_field :: "field \<Rightarrow> MyPluginSettings \<Rightarrow> jsval" where
  "get_field TimeInterval s = timeInterval s"
| "get_field WordCountThreshold s = wordCountThreshold s"

fun other :: "field \<Rightarrow> field" where
  "other TimeInterval = WordCountThreshold"
| "other WordCountThreshold = TimeInterval"

subsection \<open>Start-up and the events that follow\<close>

text \<open>
  \<^verbatim>\<open>onload\<close> loads the settings, starts the timer and registers the settings tab and
  the \<^verbatim>\<open>modify\<close> listener. From then on the host delivers events, one at a time: time
  passes, a note is modified, a settings field is edited. \<open>Arm\<close> is a further call of
  \<^verbatim>\<open>startTimer\<close>.
\<close>

definition onload :: "world \<Rightarrow> world" where
  "onload w = startTimer (loadSettings w)"

datatype event =
    Elapse nat
  | Modify "error + jsstring"
  | Change field jsstring
  | Arm

fun step :: "event \<Rightarrow> world \<Rightarrow> world" where
  "step (Elapse d) w = elapse d w"
| "step (Modify rd) w = on_modify rd w"
| "step (Change f v) w = onChange f v w"
| "step Arm w = startTimer w"

definition run :: "event list \<Rightarrow> world \<Rightarrow> world" where
  "run es w = fold step es w"

text \<open>
  A plugin that was just constructed, in a vault with no data file: \<open>timer\<close> is
  \<^verbatim>\<open>null\<close> and nothing is pending. The class assigns \<open>settings\<close> in
  \<open>loadSettings\<close>, the first step of \<^verbatim>\<open>onload\<close>, and reads it only later; the state
  here holds what that step assigns when there is no data file, the defaults. The host
  is the window of the application.
\<close>

definition fresh :: world where
  "fresh =
     \<lparr>settings = DEFAULT_SETTINGS, timer = None, data = None, clock = 0, timeouts = [],
      next_handle = 1, quizzes = 0, unhandled = [], host_delay = window_delay\<rparr>"

section \<open>Notions of the specification\<close>

subsection \<open>Words as maximal runs\<close>

text \<open>
  A maximal run of non-white-space characters of \<open>s\<close> is a pair \<open>(i, j)\<close>: the
  positions \<open>i\<close> up to \<open>j - 1\<close> hold no white space, and the run can be extended
  neither to the left (it starts the string, or white space stands before it) nor to the
  right (it ends the string, or white space stands after it).
\<close>

definition maximal_runs :: "jsstring \<Rightarrow> (nat \<times> nat) set" where
  "maximal_runs s =
     {(i, j). i < j \<and> j \<le> length s
        \<and> (\<forall>k. i \<le> k \<and> k < j \<longrightarrow> \<not> isWhiteSpace (s ! k))
        \<and> (i = 0 \<or> isWhiteSpace (s ! (i - 1)))
        \<and> (j = length s \<or> isWhiteSpace (s ! j))}"

text \<open>
  The positions where a run starts, when the character before the string is white
  space (\<open>p\<close>) or is not; and their number, counted in one pass.
\<close>

definition run_starts :: "bool \<Rightarrow> jsstring \<Rightarrow> nat set" where
  "run_starts p s =
     {i. i < length s \<and> \<not> isWhiteSpace (s ! i)
         \<and> (if i = 0 then p else isWhiteSpace (s ! (i - 1)))}"

fun count_starts :: "bool \<Rightarrow> jsstring \<Rightarrow> nat" where
  "count_starts p [] = 0"
| "count_starts p (c # cs) =
     (if p \<and> \<not> isWhiteSpace c then 1 else 0) + count_starts (isWhiteSpace c) cs"

subsection \<open>The settings: their invariant, and valid input\<close>

text \<open>The invariant of the settings: both fields are positive numbers.\<close>

definition positive_settings :: "MyPluginSettings \<Rightarrow> bool" where
  "positive_settings s \<longleftrightarrow> is_positive (timeInterval s) \<and> is_positive (wordCountThreshold s)"

definition finite_positive_settings :: "MyPluginSettings \<Rightarrow> bool" where
  "finite_positive_settings s \<longleftrightarrow>
     finite_positive (timeInterval s) \<and> finite_positive (wordCountThreshold s)"

text \<open>
  The settings tab shows a field with \<^verbatim>\<open>toString()\<close>; for a natural number that is
  its decimal numeral, a string of the digits \<^verbatim>\<open>0\<close> to \<^verbatim>\<open>9\<close>. A valid value is a
  positive integer that a JavaScript number holds exactly, entered as its numeral.
\<close>

fun decimal :: "nat \<Rightarrow> jsstring" where
  "decimal n =
     (if n < 10 then [0x30 + of_nat n] else decimal (n div 10) @ [0x30 + of_nat (n mod 10)])"

declare decimal.simps [simp del]

definition is_digit :: "code_unit \<Rightarrow> bool" where
  "is_digit c \<longleftrightarrow> c \<in> {0x30, 0x31, 0x32, 0x33, 0x34, 0x35, 0x36, 0x37, 0x38, 0x39}"

definition valid_value :: "int \<Rightarrow> bool" where
  "valid_value v \<longleftrightarrow> 0 < v \<and> v < 2 ^ 53"

subsection \<open>The timer's invariant and the arm cycle\<close>

text \<open>At most one timeout is pending, and \<open>timer\<close> holds its handle.\<close>

definition single_timer :: "world \<Rightarrow> bool" where
  "single_timer w =
     (case timeouts w of
        [] \<Rightarrow> True
      | [t] \<Rightarrow> timer w = Some (handle t)
      | _ \<Rightarrow> False)"

text \<open>
  The milliseconds that the host waits for the timeout that \<open>startTimer\<close> sets in state
  \<open>w\<close>.
\<close>

definition arm_delay :: "world \<Rightarrow> nat" where
  "arm_delay w = timeout_ms (host_delay w) (js_times (timeInterval (settings w)) 60000)"


section \<open>Lemmas\<close>

subsection \<open>Doubles\<close>

lemma bits_le: "a < 2 ^ k \<Longrightarrow> bits a \<le> k"
proof (induction k arbitrary: a)
  case 0
  then show ?case by (simp add: bits.simps)
next
  case (Suc k)
  have "a div 2 < 2 ^ k" using Suc.prems by simp
  then have "bits (a div 2) \<le> k" by (rule Suc.IH)
  then show ?case by (subst bits.simps) simp
qed

lemma round_half_even_0: "round_half_even a 0 = a"
  by (simp add: round_half_even_def)

lemma to_double_exact: "\<bar>n\<bar> < 2 ^ 53 \<Longrightarrow> to_double n = Num n"
proof -
  assume b: "\<bar>n\<bar> < 2 ^ 53"
  define a where "a = nat \<bar>n\<bar>"
  have a: "a < 2 ^ 53" using b by (simp add: a_def nat_less_iff)
  have e: "bits a - 53 = 0" using bits_le [OF a] by simp
  have "a < (2::nat) ^ 1024"
    using a by (rule less_trans) simp
  then have small: "\<not> (2::nat) ^ 1024 \<le> a" by (simp only: not_le)
  have ia: "(if n < 0 then - int a else int a) = n" by (simp add: a_def)
  have "to_double n = (if 2 ^ 1024 \<le> a then (if n < 0 then NegInf else PosInf)
                       else Num (if n < 0 then - int a else int a))"
    unfolding to_double_def Let_def a_def [symmetric] e round_half_even_0 by simp
  then show ?thesis using small ia by (simp only: if_False)
qed

lemma bits_upper: "a < 2 ^ bits a"
proof (induction a rule: bits.induct)
  case (1 n)
  show ?case
  proof (cases "n = 0")
    case True
    then show ?thesis by (simp add: bits.simps)
  next
    case False
    have "n div 2 < 2 ^ bits (n div 2)" using "1.IH" False by simp
    then have "n < 2 * 2 ^ bits (n div 2)" by linarith
    moreover have "bits n = Suc (bits (n div 2))"
      using False by (subst bits.simps) simp
    ultimately show ?thesis by simp
  qed
qed

lemma bits_lower: "a \<noteq> 0 \<Longrightarrow> 2 ^ (bits a - 1) \<le> a"
proof (induction a rule: bits.induct)
  case (1 n)
  have n: "n \<noteq> 0" using "1.prems" .
  have b: "bits n = Suc (bits (n div 2))"
    using n by (subst bits.simps) simp
  show ?case
  proof (cases "n div 2 = 0")
    case True
    then have "bits (n div 2) = 0" by (simp add: bits.simps)
    then show ?thesis using n b by simp
  next
    case False
    have "2 ^ (bits (n div 2) - 1) \<le> n div 2" using "1.IH" n False by simp
    moreover have "bits (n div 2) \<noteq> 0" using False by (subst bits.simps) simp
    then have "(2::nat) ^ bits (n div 2) = 2 * 2 ^ (bits (n div 2) - 1)"
      by (cases "bits (n div 2)") simp_all
    ultimately have "2 ^ bits (n div 2) \<le> n" by linarith
    then show ?thesis using b by simp
  qed
qed

lemma bits_eq: "2 ^ k \<le> a \<Longrightarrow> a < 2 ^ Suc k \<Longrightarrow> bits a = Suc k"
proof -
  assume lo: "2 ^ k \<le> a" and hi: "a < 2 ^ Suc k"
  have le: "bits a \<le> Suc k" using hi by (rule bits_le)
  have "(2::nat) ^ k < 2 ^ bits a" using lo bits_upper [of a] by (rule le_less_trans)
  then have "k < bits a" by simp
  then show ?thesis using le by simp
qed

lemma round_half_even_ge: "a div 2 ^ e \<le> round_half_even a e"
  by (simp add: round_half_even_def Let_def)

lemma to_double_overflow:
  assumes "2 ^ 1024 \<le> n"
  shows "to_double n = PosInf"
proof -
  define a where "a = nat \<bar>n\<bar>"
  define e where "e = bits a - 53"
  have n: "0 \<le> n" using assms by (rule order_trans [rotated]) simp
  have a: "(2::nat) ^ 1024 \<le> a"
  proof -
    have "int (2 ^ 1024) \<le> int a" using assms n by (simp add: a_def)
    then show ?thesis by (simp only: of_nat_le_iff)
  qed
  have a0: "a \<noteq> 0" using a by auto
  have "(2::nat) ^ 1024 < 2 ^ bits a" using a bits_upper [of a] by (rule le_less_trans)
  then have big: "1024 < bits a" by (rule power_less_imp_less_exp [rotated]) simp
  then have be: "bits a - 1 = e + 52" by (simp add: e_def)
  have "(2::nat) ^ (e + 52) \<le> a" using bits_lower [OF a0] by (simp only: be)
  then have "(2::nat) ^ 52 * 2 ^ e \<le> a" by (simp add: power_add mult.commute)
  then have "(2::nat) ^ 52 \<le> a div 2 ^ e" by (simp add: less_eq_div_iff_mult_less_eq)
  then have q: "(2::nat) ^ 52 \<le> round_half_even a e"
    using round_half_even_ge [of a e] by (rule order_trans)
  have "(2::nat) ^ 1024 \<le> 2 ^ (52 + e)"
    using big by (intro power_increasing) (simp_all add: e_def)
  also have "\<dots> = 2 ^ 52 * 2 ^ e" by (simp add: power_add)
  also have "\<dots> \<le> round_half_even a e * 2 ^ e" using q by (rule mult_le_mono1)
  finally have m: "2 ^ 1024 \<le> round_half_even a e * 2 ^ e" .
  have "\<not> n < 0" using n by simp
  then show ?thesis
    unfolding to_double_def Let_def a_def [symmetric] e_def [symmetric] using m by simp
qed

lemma to_double_2_53_1: "to_double 9007199254740993 = Num 9007199254740992"
proof -
  have a: "nat \<bar>9007199254740993 :: int\<bar> = 9007199254740993" by simp
  have "bits 9007199254740993 = Suc 53"
    by (rule bits_eq) simp_all
  then have e: "bits 9007199254740993 - 53 = 1" by simp
  have r: "round_half_even 9007199254740993 1 = 4503599627370496"
    by (simp add: round_half_even_def)
  show ?thesis
    unfolding to_double_def Let_def a e r by simp
qed

lemma to_double_valid: "valid_value v \<Longrightarrow> to_double v = Num v"
  by (rule to_double_exact) (simp add: valid_value_def)

lemma js_times_exact: "\<bar>n * k\<bar> < 2 ^ 53 \<Longrightarrow> js_times (Num n) k = Num (n * k)"
  by (simp add: to_double_exact)

lemma timeout_ms_in_range:
  "1 \<le> n \<Longrightarrow> n \<le> 2147483647 \<Longrightarrow> timeout_ms host (Num n) = nat n"
  by (simp add: timeout_ms_def)

lemma window_delay_wraps: "timeout_ms window_delay (Num 2147520000) = 0"
  by (simp add: timeout_ms_def window_delay_def)

subsection \<open>Word count\<close>

lemma split_ws_Nil: "split_ws [] = [[]]"
  by (simp add: split_ws.simps)

lemma split_ws_white:
  "isWhiteSpace c \<Longrightarrow> split_ws (c # cs) = [] # split_ws (dropWhile isWhiteSpace cs)"
  by (subst split_ws.simps) simp

lemma hd_split_ws: "hd (split_ws s) = takeWhile (\<lambda>c. \<not> isWhiteSpace c) s"
  by (subst split_ws.simps) (simp add: Let_def)

lemma tl_split_ws:
  "tl (split_ws s) =
     (if dropWhile (\<lambda>c. \<not> isWhiteSpace c) s = [] then []
      else split_ws (dropWhile isWhiteSpace (dropWhile (\<lambda>c. \<not> isWhiteSpace c) s)))"
  by (subst split_ws.simps) (simp add: Let_def)

lemma split_ws_black:
  "\<not> isWhiteSpace c \<Longrightarrow> split_ws (c # cs) = (c # hd (split_ws cs)) # tl (split_ws cs)"
  by (subst split_ws.simps) (simp add: Let_def hd_split_ws tl_split_ws)

lemma filter_split_ws_dropWhile:
  "filter (\<lambda>t. t \<noteq> []) (split_ws (dropWhile isWhiteSpace cs)) = filter (\<lambda>t. t \<noteq> []) (split_ws cs)"
proof (cases cs)
  case Nil
  then show ?thesis by simp
next
  case (Cons c cs')
  then show ?thesis by (cases "isWhiteSpace c") (simp_all add: split_ws_white)
qed

lemma count_starts_split_ws:
  "count_starts True s = length (filter (\<lambda>t. t \<noteq> []) (split_ws s)) \<and>
   count_starts False s = length (filter (\<lambda>t. t \<noteq> []) (tl (split_ws s)))"
proof (induction s)
  case Nil
  show ?case by (simp add: split_ws_Nil)
next
  case (Cons c cs)
  show ?case
  proof (cases "isWhiteSpace c")
    case True
    then show ?thesis using Cons by (simp add: split_ws_white filter_split_ws_dropWhile)
  next
    case False
    then show ?thesis using Cons by (simp add: split_ws_black)
  qed
qed

lemma run_starts_Nil: "run_starts p [] = {}"
  by (simp add: run_starts_def)

lemma run_starts_Cons:
  "run_starts p (c # cs) =
     (if p \<and> \<not> isWhiteSpace c then {0} else {}) \<union> Suc ` run_starts (isWhiteSpace c) cs"
proof (rule set_eqI)
  fix i
  show "i \<in> run_starts p (c # cs) \<longleftrightarrow>
        i \<in> (if p \<and> \<not> isWhiteSpace c then {0} else {}) \<union> Suc ` run_starts (isWhiteSpace c) cs"
  proof (cases i)
    case 0
    then show ?thesis by (auto simp: run_starts_def)
  next
    case (Suc i')
    then show ?thesis by (cases i') (auto simp: run_starts_def image_iff)
  qed
qed

lemma finite_run_starts: "finite (run_starts p s)"
  by (simp add: run_starts_def)

lemma card_run_starts: "card (run_starts p s) = count_starts p s"
proof (induction s arbitrary: p)
  case Nil
  show ?case by (simp add: run_starts_Nil)
next
  case (Cons c cs)
  have fin: "finite (Suc ` run_starts (isWhiteSpace c) cs)"
    by (simp add: finite_run_starts)
  have img: "card (Suc ` run_starts (isWhiteSpace c) cs) = count_starts (isWhiteSpace c) cs"
    using Cons.IH by (simp add: card_image)
  have notin: "0 \<notin> Suc ` run_starts (isWhiteSpace c) cs" by auto
  show ?case
  proof (cases "p \<and> \<not> isWhiteSpace c")
    case True
    then have "run_starts p (c # cs) = insert 0 (Suc ` run_starts (isWhiteSpace c) cs)"
      by (simp add: run_starts_Cons)
    then show ?thesis using True fin notin img by simp
  next
    case False
    then have "run_starts p (c # cs) = Suc ` run_starts (isWhiteSpace c) cs"
      unfolding run_starts_Cons by (simp only: if_False Un_empty_left)
    moreover have "count_starts p (c # cs) = count_starts (isWhiteSpace c) cs"
      using False by auto
    ultimately show ?thesis using img by simp
  qed
qed

lemma inj_on_fst_maximal_runs: "inj_on fst (maximal_runs s)"
proof (rule inj_onI)
  fix x y
  assume x: "x \<in> maximal_runs s" and y: "y \<in> maximal_runs s" and e: "fst x = fst y"
  obtain i j where xi: "x = (i, j)" by (cases x)
  obtain i' j' where yi: "y = (i', j')" by (cases y)
  have ii: "i' = i" using e xi yi by simp
  have "j = j'"
  proof (rule ccontr)
    assume "j \<noteq> j'"
    then consider "j < j'" | "j' < j" by linarith
    then show False
    proof cases
      case 1
      then have "isWhiteSpace (s ! j)" using x y xi yi by (auto simp: maximal_runs_def)
      moreover have "\<not> isWhiteSpace (s ! j)" using 1 x y xi yi ii by (auto simp: maximal_runs_def)
      ultimately show False by simp
    next
      case 2
      then have "isWhiteSpace (s ! j')" using x y xi yi by (auto simp: maximal_runs_def)
      moreover have "\<not> isWhiteSpace (s ! j')" using 2 x y xi yi ii by (auto simp: maximal_runs_def)
      ultimately show False by simp
    qed
  qed
  then show "x = y" using xi yi ii by simp
qed

lemma fst_maximal_runs: "fst ` maximal_runs s = run_starts True s"
proof (rule set_eqI, rule iffI)
  fix i
  assume "i \<in> fst ` maximal_runs s"
  then obtain j where "(i, j) \<in> maximal_runs s" by force
  then show "i \<in> run_starts True s"
    by (cases i) (auto simp: maximal_runs_def run_starts_def)
next
  fix i
  assume st: "i \<in> run_starts True s"
  define Q where "Q j \<longleftrightarrow> i < j \<and> (j = length s \<or> isWhiteSpace (s ! j))" for j
  have "Q (length s)" using st by (simp add: Q_def run_starts_def)
  define j where "j = (LEAST j. Q j)"
  have Qj: "Q j" unfolding j_def using \<open>Q (length s)\<close> by (rule LeastI)
  have le: "j \<le> length s" unfolding j_def using \<open>Q (length s)\<close> by (rule Least_le)
  have black: "\<not> isWhiteSpace (s ! k)" if "i \<le> k" "k < j" for k
  proof (cases "k = i")
    case True
    then show ?thesis using st by (simp add: run_starts_def)
  next
    case False
    then have "i < k" using that by simp
    have "\<not> Q k" using not_less_Least that(2) unfolding j_def by blast
    then show ?thesis using \<open>i < k\<close> by (simp add: Q_def)
  qed
  have "(i, j) \<in> maximal_runs s"
    using Qj le black st by (auto simp: maximal_runs_def Q_def run_starts_def split: if_splits)
  then show "i \<in> fst ` maximal_runs s" by force
qed

lemma card_maximal_runs: "card (maximal_runs s) = count_starts True s"
proof -
  have "card (maximal_runs s) = card (fst ` maximal_runs s)"
    by (simp add: card_image inj_on_fst_maximal_runs)
  then show ?thesis by (simp add: fst_maximal_runs card_run_starts)
qed

lemma count_starts_white: "\<forall>c \<in> set C. isWhiteSpace c \<Longrightarrow> count_starts p C = 0"
  by (induction C arbitrary: p) auto

lemma wordCount_count_starts: "wordCount C = count_starts True C"
  by (simp add: wordCount_def count_starts_split_ws)

subsection \<open>Timeouts and the passing of time\<close>

lemma fold_triggerQuiz: "fold (\<lambda>t. triggerQuiz) xs w = w\<lparr>quizzes := quizzes w + length xs\<rparr>"
  by (induction xs arbitrary: w) (simp_all add: triggerQuiz_def)

lemma elapse_eq:
  "elapse d w =
     w\<lparr>clock := clock w + d,
       timeouts := filter (\<lambda>t. \<not> due (host_delay w) t \<le> clock w + d) (timeouts w),
       quizzes := quizzes w
         + length (filter (\<lambda>t. due (host_delay w) t \<le> clock w + d) (timeouts w))\<rparr>"
  by (simp add: elapse_def Let_def fold_triggerQuiz)

lemma length_filter_later:
  fixes a b :: nat
  assumes "a \<le> b"
  shows "length (filter (\<lambda>t. due h t \<le> a) ts)
           + length (filter (\<lambda>t. due h t \<le> b) (filter (\<lambda>t. \<not> due h t \<le> a) ts))
         = length (filter (\<lambda>t. due h t \<le> b) ts)"
  using assms by (induction ts) auto

lemma filter_later:
  fixes a b :: nat
  assumes "a \<le> b"
  shows "filter (\<lambda>t. \<not> due h t \<le> b) (filter (\<lambda>t. \<not> due h t \<le> a) ts)
           = filter (\<lambda>t. \<not> due h t \<le> b) ts"
  using assms by (induction ts) auto

lemma elapse_elapse: "elapse d2 (elapse d1 w) = elapse (d1 + d2) w"
proof -
  have le: "clock w + d1 \<le> clock w + d1 + d2" by simp
  show ?thesis
    using length_filter_later[OF le, of "host_delay w" "timeouts w"]
      filter_later[OF le, of "host_delay w" "timeouts w"]
    by (simp add: elapse_eq add.assoc)
qed

lemma run_Nil: "run [] w = w" by (simp add: run_def)
lemma run_Cons: "run (e # es) w = run es (step e w)" by (simp add: run_def)
lemma run_Elapse:
  "ds \<noteq> [] \<Longrightarrow> run (map Elapse ds) w = elapse (sum_list ds) w"
proof (induction ds arbitrary: w)
  case Nil
  then show ?case by simp
next
  case (Cons d ds)
  show ?case
  proof (cases "ds = []")
    case True
    then show ?thesis by (simp add: run_Cons run_Nil)
  next
    case False
    then show ?thesis using Cons.IH[OF False] by (simp add: run_Cons elapse_elapse)
  qed
qed

lemma startTimer_single:
  assumes "single_timer w"
  shows "startTimer w =
           w\<lparr>timeouts := [\<lparr>handle = next_handle w, set_at = clock w,
                           delay = js_times (timeInterval (settings w)) 60000\<rparr>],
             next_handle := next_handle w + 1,
             timer := Some (next_handle w)\<rparr>"
proof (cases "timeouts w")
  case Nil
  then show ?thesis
    by (cases "timer w") (simp_all add: startTimer_def setTimeout_def clearTimeout_def)
next
  case (Cons t ts)
  then have "ts = []" and "timer w = Some (handle t)"
    using assms by (auto simp: single_timer_def split: list.splits)
  then show ?thesis using Cons
    by (simp add: startTimer_def setTimeout_def clearTimeout_def)
qed








subsection \<open>Concrete states and inputs\<close>

lemma onload_fresh:
  "onload fresh =
     \<lparr>settings = \<lparr>timeInterval = Num 5, wordCountThreshold = Num 500\<rparr>, timer = Some 1,
      data = None, clock = 0,
      timeouts = [\<lparr>handle = 1, set_at = 0, delay = Num 300000\<rparr>],
      next_handle = 2, quizzes = 0, unhandled = [], host_delay = window_delay\<rparr>"
  by (simp add: onload_def fresh_def loadSettings_def startTimer_def setTimeout_def
      DEFAULT_SETTINGS_def to_double_exact)

lemma parseInt_0: "parseInt (js ''0'') = Num 0"
  by (simp add: parseInt_def js_def isWhiteSpace_def digit_val_def digits_value_def
      to_double_exact)

lemma parseInt_abc: "parseInt (js ''abc'') = NaN"
  by (simp add: parseInt_def js_def isWhiteSpace_def digit_val_def digits_value_def
      to_double_exact)

subsection \<open>Numerals and \<open>parseInt\<close>\<close>

lemma digit_char:
  assumes "d < 10"
  shows "is_digit (0x30 + of_nat d)" and "digit_val 10 (0x30 + of_nat d) = Some d"
proof -
  from assms have "d \<in> {0, 1, 2, 3, 4, 5, 6, 7, 8, 9}" by auto
  then show "is_digit (0x30 + of_nat d)" and "digit_val 10 (0x30 + of_nat d) = Some d"
    by (auto simp: is_digit_def digit_val_def)
qed

lemma is_digit_facts:
  assumes "is_digit c"
  shows "\<not> isWhiteSpace c" and "c \<noteq> 0x2D" and "c \<noteq> 0x2B" and "c \<noteq> 0x78" and "c \<noteq> 0x58"
    and "digit_val 10 c \<noteq> None"
  using assms by (auto simp: is_digit_def isWhiteSpace_def digit_val_def)

lemma decimal_digits: "\<forall>c \<in> set (decimal n). is_digit c"
proof (induction n rule: decimal.induct)
  case (1 n)
  show ?case
  proof (cases "n < 10")
    case True
    then show ?thesis by (subst decimal.simps) (simp add: digit_char)
  next
    case False
    then show ?thesis using "1.IH" by (subst decimal.simps) (simp add: digit_char)
  qed
qed

lemma decimal_not_Nil: "decimal n \<noteq> []"
  by (subst decimal.simps) simp

lemma digits_value_snoc:
  "digits_value R (Z @ [c]) =
     digits_value R Z * int R + int (case digit_val R c of None \<Rightarrow> 0 | Some d \<Rightarrow> d)"
  by (simp add: digits_value_def)

lemma digits_value_decimal: "digits_value 10 (decimal n) = int n"
proof (induction n rule: decimal.induct)
  case (1 n)
  show ?case
  proof (cases "n < 10")
    case True
    have v: "digits_value 10 ([] @ [0x30 + of_nat n]) = int n"
      unfolding digits_value_snoc using True by (simp add: digit_char digits_value_def)
    have "decimal n = [] @ [0x30 + of_nat n]"
      using True by (subst decimal.simps) simp
    then show ?thesis by (simp only: v)
  next
    case False
    have "digits_value 10 (decimal (n div 10) @ [0x30 + of_nat (n mod 10)])
            = digits_value 10 (decimal (n div 10)) * 10 + int (n mod 10)"
      by (simp add: digits_value_snoc digit_char)
    also have "\<dots> = int (n div 10) * 10 + int (n mod 10)"
      by (simp only: "1.IH"[OF False])
    also have "\<dots> = int (n div 10 * 10 + n mod 10)"
      by (simp only: of_nat_add of_nat_mult of_nat_numeral)
    also have "\<dots> = int n"
      by (simp only: div_mult_mod_eq)
    finally have v: "digits_value 10 (decimal (n div 10) @ [0x30 + of_nat (n mod 10)]) = int n" .
    have "decimal n = decimal (n div 10) @ [0x30 + of_nat (n mod 10)]"
      using False by (subst decimal.simps) simp
    then show ?thesis by (simp only: v)
  qed
qed

lemma parseInt_digits:
  assumes dig: "\<forall>c \<in> set S. is_digit c" and ne: "S \<noteq> []"
  shows "parseInt S = to_double (digits_value 10 S)"
proof -
  obtain c cs where S: "S = c # cs" using ne by (cases S) auto
  have c: "is_digit c" using dig S by simp
  have drop: "dropWhile isWhiteSpace S = S"
    using S is_digit_facts(1)[OF c] by simp
  have nothex: "take 2 S \<noteq> [0x30, 0x78]" "take 2 S \<noteq> [0x30, 0x58]"
  proof -
    show "take 2 S \<noteq> [0x30, 0x78]"
    proof
      assume "take 2 S = [0x30, 0x78]"
      then have "0x78 \<in> set (take 2 S)" by simp
      then have "0x78 \<in> set S" by (rule in_set_takeD)
      then show False using dig is_digit_facts(4) by blast
    qed
    show "take 2 S \<noteq> [0x30, 0x58]"
    proof
      assume "take 2 S = [0x30, 0x58]"
      then have "0x58 \<in> set (take 2 S)" by simp
      then have "0x58 \<in> set S" by (rule in_set_takeD)
      then show False using dig is_digit_facts(5) by blast
    qed
  qed
  have all: "takeWhile (\<lambda>c. digit_val 10 c \<noteq> None) S = S"
    using dig is_digit_facts(6) by (simp add: takeWhile_eq_all_conv)
  have hd: "hd S \<noteq> 0x2D" "hd S \<noteq> 0x2B"
    using S is_digit_facts(2,3)[OF c] by simp_all
  show ?thesis
    unfolding parseInt_def drop Let_def using nothex hd ne by (simp add: all del: not_None_eq)
qed

lemma parseInt_decimal: "parseInt (decimal n) = to_double (int n)"
  by (simp add: parseInt_digits decimal_digits decimal_not_Nil digits_value_decimal)

lemma decimal_7: "decimal 7 = js ''7''"
  by (simp add: decimal.simps js_def)

lemma decimal_42: "decimal 42 = js ''42''"
  by (simp add: decimal.simps js_def)

subsection \<open>Further lemmas on words and events\<close>

lemma count_starts_word:
  "count_starts True (js ''w '' @ s) = Suc (count_starts True s)"
  by (simp add: js_def isWhiteSpace_def)

lemma wordCount_words: "wordCount (concat (replicate n (js ''w ''))) = n"
  unfolding wordCount_count_starts
  by (induction n) (simp_all add: count_starts_word del: append.simps)

lemma unhandled_irrelevant:
  assumes "a\<lparr>unhandled := []\<rparr> = b\<lparr>unhandled := []\<rparr>"
  shows "(step ev a)\<lparr>unhandled := []\<rparr> = (step ev b)\<lparr>unhandled := []\<rparr>"
proof -
  obtain u where a: "a = b\<lparr>unhandled := u\<rparr>"
    using assms by (cases a, cases b) simp
  show ?thesis
  proof (cases ev)
    case (Elapse d)
    then show ?thesis by (simp add: a elapse_eq)
  next
    case (Modify rd)
    then show ?thesis
      by (cases rd) (simp_all add: a on_modify_def handleNoteChange_def triggerQuiz_def)
  next
    case (Change f v)
    then show ?thesis
      by (cases f)
        (simp_all add: a onChange_timeInterval_def onChange_wordCountThreshold_def
          saveSettings_def)
  next
    case Arm
    then show ?thesis
      by (cases "timer b") (simp_all add: a startTimer_def setTimeout_def clearTimeout_def)
  qed
qed

lemma unhandled_irrelevant_run:
  "a\<lparr>unhandled := []\<rparr> = b\<lparr>unhandled := []\<rparr> \<Longrightarrow>
   (run es a)\<lparr>unhandled := []\<rparr> = (run es b)\<lparr>unhandled := []\<rparr>"
proof (induction es arbitrary: a b)
  case Nil
  then show ?case by (simp add: run_Nil)
next
  case (Cons e es)
  show ?case
    unfolding run_Cons by (rule Cons.IH, rule unhandled_irrelevant, rule Cons.prems)
qed

subsection \<open>Settings\<close>

lemma parseInt_7: "parseInt (js ''7'') = Num 7"
  using parseInt_decimal [of 7] by (simp add: decimal_7 to_double_exact)

lemma parseInt_2_5: "parseInt (js ''2.5'') = Num 2"
  by (simp add: parseInt_def js_def isWhiteSpace_def digit_val_def digits_value_def
      to_double_exact)

lemma decimal_35792: "decimal 35792 = js ''35792''"
  by (simp add: decimal.simps js_def)

lemma parseInt_35792: "parseInt (js ''35792'') = Num 35792"
  using parseInt_decimal [of 35792] by (simp add: decimal_35792 to_double_exact)

lemma decimal_2_53_1: "decimal 9007199254740993 = js ''9007199254740993''"
  by (simp add: decimal.simps js_def)

lemma digits_value_nines: "digits_value 10 (replicate k 0x39) = 10 ^ k - 1"
proof (induction k)
  case 0
  show ?case by (simp add: digits_value_def)
next
  case (Suc k)
  have d: "digit_val 10 0x39 = Some 9" by (simp add: digit_val_def)
  have "digits_value 10 (replicate (Suc k) 0x39) = digits_value 10 (replicate k 0x39 @ [0x39])"
    by (simp only: replicate_append_same replicate_Suc)
  also have "\<dots> = (10 ^ k - 1) * 10 + 9"
    by (simp only: digits_value_snoc Suc.IH d) simp
  also have "\<dots> = 10 ^ Suc k - 1" by simp
  finally show ?case .
qed

lemma parseInt_309_nines: "parseInt (replicate 309 0x39) = PosInf"
proof -
  have "\<forall>c \<in> set (replicate 309 (0x39 :: code_unit)). is_digit c"
    by (simp add: is_digit_def)
  moreover have "replicate 309 (0x39 :: code_unit) \<noteq> []" by simp
  ultimately have "parseInt (replicate 309 0x39) = to_double (digits_value 10 (replicate 309 0x39))"
    by (rule parseInt_digits)
  also have "\<dots> = to_double (10 ^ 309 - 1)" by (simp only: digits_value_nines)
  also have "\<dots> = PosInf" by (rule to_double_overflow) simp
  finally show ?thesis .
qed

lemma parseInt_42: "parseInt (js ''42'') = Num 42"
  using parseInt_decimal [of 42] by (simp add: decimal_42 to_double_exact)

lemma onChange_eq:
  "onChange f v w =
     (let s = (case f of
                 TimeInterval \<Rightarrow> (settings w)\<lparr>timeInterval := parseInt v\<rparr>
               | WordCountThreshold \<Rightarrow> (settings w)\<lparr>wordCountThreshold := parseInt v\<rparr>)
      in w\<lparr>settings := s,
           data := Some \<lparr>p_timeInterval = Some (to_json (timeInterval s)),
                         p_wordCountThreshold = Some (to_json (wordCountThreshold s))\<rparr>\<rparr>)"
  by (cases f)
    (simp_all add: onChange_timeInterval_def onChange_wordCountThreshold_def saveSettings_def)

lemma onChange_field: "get_field f (settings (onChange f v w)) = parseInt v"
  by (cases f) (simp_all add: onChange_eq)

lemma onChange_other:
  "get_field (other f) (settings (onChange f v w)) = get_field (other f) (settings w)"
  by (cases f) (simp_all add: onChange_eq)

lemma onChange_frame:
  "timer (onChange f v w) = timer w" "clock (onChange f v w) = clock w"
  "timeouts (onChange f v w) = timeouts w" "next_handle (onChange f v w) = next_handle w"
  "quizzes (onChange f v w) = quizzes w" "unhandled (onChange f v w) = unhandled w"
  "host_delay (onChange f v w) = host_delay w"
  by (simp_all add: onChange_eq Let_def)

lemma onChange_data:
  "data (onChange f v w) =
     Some \<lparr>p_timeInterval = Some (to_json (timeInterval (settings (onChange f v w)))),
           p_wordCountThreshold = Some (to_json (wordCountThreshold (settings (onChange f v w))))\<rparr>"
  by (simp add: onChange_eq Let_def)

lemma of_json_to_json: "of_json (to_json (of_json j)) = of_json j"
  by (cases j) simp_all

lemma of_json_to_json_Num: "of_json (to_json (Num n)) = Num n"
  by simp

lemma loadSettings_storable:
  "of_json (to_json (get_field g (settings (loadSettings w)))) = get_field g (settings (loadSettings w))"
  by (cases g)
    (simp_all add: loadSettings_def DEFAULT_SETTINGS_def of_json_to_json split: option.splits)

lemma load_after_save:
  "settings (loadSettings (saveSettings w)) =
     \<lparr>timeInterval = of_json (to_json (timeInterval (settings w))),
      wordCountThreshold = of_json (to_json (wordCountThreshold (settings w)))\<rparr>"
  by (simp add: loadSettings_def saveSettings_def)

lemma saveSettings_onChange: "saveSettings (onChange f v w) = onChange f v w"
  by (cases f)
    (simp_all add: onChange_timeInterval_def onChange_wordCountThreshold_def saveSettings_def)

lemma get_field_load_after_save:
  "get_field g (settings (loadSettings (saveSettings w))) = of_json (to_json (get_field g (settings w)))"
  by (cases g) (simp_all add: load_after_save)

lemma finite_positive_of_json_to_json:
  "finite_positive (of_json (to_json x)) = finite_positive x"
  by (cases x) simp_all

lemma finite_positive_is_positive: "finite_positive x \<Longrightarrow> is_positive x"
  by (cases x) simp_all

lemma finite_positive_settings_positive:
  "finite_positive_settings s \<Longrightarrow> positive_settings s"
  by (simp add: finite_positive_settings_def positive_settings_def finite_positive_is_positive)

subsection \<open>The arm cycle\<close>

lemma elapse_startTimer:
  assumes "single_timer w"
  shows "elapse d (startTimer w) =
           (if arm_delay w \<le> d
            then (startTimer w)\<lparr>clock := clock w + d, timeouts := [], quizzes := quizzes w + 1\<rparr>
            else (startTimer w)\<lparr>clock := clock w + d\<rparr>)"
  by (simp add: elapse_eq startTimer_single [OF assms] due_def arm_delay_def)

lemma startTimer_fields:
  assumes "single_timer w"
  shows "settings (startTimer w) = settings w" "clock (startTimer w) = clock w"
    "quizzes (startTimer w) = quizzes w" "next_handle (startTimer w) = next_handle w + 1"
    "timer (startTimer w) = Some (next_handle w)" "data (startTimer w) = data w"
    "host_delay (startTimer w) = host_delay w"
    "timeouts (startTimer w) =
       [\<lparr>handle = next_handle w, set_at = clock w,
         delay = js_times (timeInterval (settings w)) 60000\<rparr>]"
  by (simp_all add: startTimer_single [OF assms])


lemma no_arm_keeps_empty:
  "timeouts w = [] \<Longrightarrow> Arm \<notin> set es \<Longrightarrow> timeouts (run es w) = []"
proof (induction es arbitrary: w)
  case Nil
  then show ?case by (simp add: run_Nil)
next
  case (Cons e es)
  have "timeouts (step e w) = []"
  proof (cases e)
    case (Elapse d)
    then show ?thesis using Cons.prems(1) by (simp add: elapse_eq)
  next
    case (Modify rd)
    then show ?thesis using Cons.prems(1)
      by (cases rd) (simp_all add: on_modify_def handleNoteChange_def triggerQuiz_def)
  next
    case (Change f v)
    then show ?thesis using Cons.prems(1) by (simp add: onChange_frame)
  next
    case Arm
    then show ?thesis using Cons.prems(2) by simp
  qed
  then show ?case using Cons.IH Cons.prems(2) by (simp add: run_Cons)
qed

lemma elapse_nothing_pending: "timeouts w = [] \<Longrightarrow> quizzes (elapse d w) = quizzes w"
  by (simp add: elapse_eq)

lemma arm_delay_fresh: "arm_delay fresh = 300000"
  by (simp add: arm_delay_def fresh_def DEFAULT_SETTINGS_def to_double_exact timeout_ms_def)

lemma single_timer_fresh: "single_timer fresh"
  by (simp add: single_timer_def fresh_def)


lemma last_timeouts_startTimer:
  "last (timeouts (startTimer w)) =
     \<lparr>handle = next_handle w, set_at = clock w,
      delay = js_times (timeInterval (settings w)) 60000\<rparr>"
  by (cases "timer w") (simp_all add: startTimer_def setTimeout_def clearTimeout_def)

section \<open>The claims\<close>

subsection \<open>C1: the threshold test\<close>

text \<open>
  Claim C1. For every change event with content \<open>C\<close>, \<open>triggerQuiz\<close> runs during
  the evaluation of the event if and only if the word count of \<open>C\<close> is greater than
  or equal to the threshold (the test is JavaScript's \<^verbatim>\<open>>=\<close>), and then it runs once.
  With threshold 500, content of 499 words does not trigger and content of 500 words
  triggers exactly once.
\<close>

theorem handleNoteChange_triggers_iff:
  "handleNoteChange (Inr C) w =
     Inr (w\<lparr>quizzes := quizzes w
              + (if js_ge (wordCount C) (wordCountThreshold (settings w)) then 1 else 0)\<rparr>) \<and>
   (wordCountThreshold (settings w) = Num t \<longrightarrow>
      quizzes (on_modify (Inr C) w) = quizzes w + (if t \<le> int (wordCount C) then 1 else 0)) \<and>
   (wordCountThreshold (settings w) = Num 500 \<and> wordCount C = 499 \<longrightarrow>
      on_modify (Inr C) w = w) \<and>
   (wordCountThreshold (settings w) = Num 500 \<and> wordCount C = 500 \<longrightarrow>
      quizzes (on_modify (Inr C) w) = quizzes w + 1)"
  by (simp add: handleNoteChange_def on_modify_def triggerQuiz_def)

text \<open>After start-up with the default threshold: 499 words, then 500 words.\<close>

theorem handleNoteChange_triggers_iff_witness:
  "quizzes (on_modify (Inr (concat (replicate 499 (js ''w '')))) (onload fresh)) = 0 \<and>
   quizzes (on_modify (Inr (concat (replicate 500 (js ''w '')))) (onload fresh)) = 1"
proof -
  have thr: "wordCountThreshold (settings (onload fresh)) = Num 500"
    and q: "quizzes (onload fresh) = 0"
    by (simp_all add: onload_fresh)
  show ?thesis
    using handleNoteChange_triggers_iff [of "concat (replicate 499 (js ''w ''))" "onload fresh" 500]
      handleNoteChange_triggers_iff [of "concat (replicate 500 (js ''w ''))" "onload fresh" 500]
    by (simp add: thr q wordCount_words)
qed

subsection \<open>C2: the word count\<close>

text \<open>
  Claim C2, as amended. For all content \<open>C\<close>, the word count that \<open>handleNoteChange\<close>
  computes is the number of maximal non-white-space runs of \<open>C\<close>. Empty or
  white-space-only content has word count 0, and it does not trigger when the threshold
  is a positive number.
\<close>

theorem wordCount_is_number_of_maximal_runs:
  "wordCount C = card (maximal_runs C) \<and>
   ((\<forall>c \<in> set C. isWhiteSpace c) \<longrightarrow>
      wordCount C = 0 \<and>
      (is_positive (wordCountThreshold (settings w)) \<longrightarrow> handleNoteChange (Inr C) w = Inr w))"
proof -
  have runs: "wordCount C = card (maximal_runs C)"
    by (simp add: wordCount_count_starts card_maximal_runs)
  have zero: "wordCount C = 0" if "\<forall>c \<in> set C. isWhiteSpace c"
    using that by (simp add: wordCount_count_starts count_starts_white)
  have quiet: "handleNoteChange (Inr C) w = Inr w"
    if "wordCount C = 0" and "is_positive (wordCountThreshold (settings w))"
    using that by (cases "wordCountThreshold (settings w)") (simp_all add: handleNoteChange_def)
  show ?thesis using runs zero quiet by blast
qed

text \<open>
  The text \<^verbatim>\<open>"to be  or not "\<close> has four maximal runs; after start-up with the default
  threshold, a change to a note of two spaces triggers nothing.
\<close>

theorem wordCount_is_number_of_maximal_runs_witness:
  "card (maximal_runs (js ''to be  or not '')) = 4 \<and>
   wordCount (js ''  '') = 0 \<and>
   handleNoteChange (Inr (js ''  '')) (onload fresh) = Inr (onload fresh)"
proof -
  have four: "wordCount (js ''to be  or not '') = 4"
    by (simp add: wordCount_count_starts js_def isWhiteSpace_def)
  have white: "\<forall>c \<in> set (js ''  ''). isWhiteSpace c"
    by (simp add: js_def isWhiteSpace_def)
  have pos: "is_positive (wordCountThreshold (settings (onload fresh)))"
    by (simp add: onload_fresh)
  show ?thesis
    using wordCount_is_number_of_maximal_runs [of "js ''to be  or not ''"]
      wordCount_is_number_of_maximal_runs [of "js ''  ''" "onload fresh"] four white pos
    by simp
qed

text \<open>
  Claim C2 as it was stated says that empty content never triggers. The settings tab
  stores the threshold \<^verbatim>\<open>0\<close> when asked to; from then on a change to an empty note, of
  word count 0, runs \<open>triggerQuiz\<close>.
\<close>

theorem empty_note_triggers_at_threshold_0:
  "wordCount [] = 0 \<and>
   quizzes (onChange WordCountThreshold (js ''0'') (onload fresh)) = 0 \<and>
   quizzes (on_modify (Inr []) (onChange WordCountThreshold (js ''0'') (onload fresh))) = 1"
  by (simp add: wordCount_count_starts on_modify_def handleNoteChange_def triggerQuiz_def
      onChange_wordCountThreshold_def saveSettings_def parseInt_0 onload_fresh)

subsection \<open>C3: one arm, one quiz\<close>

text \<open>
  Claim C3, as amended. For every interval of \<open>n > 0\<close> whole minutes with
  \<open>n * 60000 \<le> 2 ^ 31 - 1\<close>, that is up to 35791 minutes, \<open>startTimer\<close> leaves one
  timeout pending, with a delay of exactly \<open>n * 60000\<close> milliseconds. If then nothing
  happens but time passing, in whatever steps, \<open>triggerQuiz\<close> has not run before
  \<open>n * 60000\<close> milliseconds have passed and has run exactly once from then on. This
  holds whatever the host does with delays out of its range.
\<close>

theorem startTimer_fires_once_after_interval:
  assumes "single_timer w" and "timeInterval (settings w) = Num n" and "0 < n"
    and "n * 60000 \<le> 2147483647"
  shows "timeouts (startTimer w) =
           [\<lparr>handle = next_handle w, set_at = clock w, delay = Num (n * 60000)\<rparr>] \<and>
         timer (startTimer w) = Some (next_handle w) \<and>
         (\<forall>ds. quizzes (run (map Elapse ds) (startTimer w))
                 = quizzes w + (if nat (n * 60000) \<le> sum_list ds then 1 else 0))"
proof -
  have ex: "js_times (Num n) 60000 = Num (n * 60000)"
    using assms(3,4) by (intro js_times_exact) simp
  have d: "arm_delay w = nat (n * 60000)"
    using assms(3,4) by (simp only: arm_delay_def assms(2) ex) (simp add: timeout_ms_in_range)
  have pos: "0 < nat (n * 60000)" using assms(3) by simp
  have q: "quizzes (run (map Elapse ds) (startTimer w))
             = quizzes w + (if nat (n * 60000) \<le> sum_list ds then 1 else 0)" for ds
  proof (cases "ds = []")
    case True
    then show ?thesis using pos by (simp add: run_Nil startTimer_fields [OF assms(1)])
  next
    case False
    then show ?thesis
      by (simp add: run_Elapse elapse_startTimer [OF assms(1)] d startTimer_fields [OF assms(1)])
  qed
  have t: "timeouts (startTimer w) =
             [\<lparr>handle = next_handle w, set_at = clock w, delay = Num (n * 60000)\<rparr>]"
    by (simp only: startTimer_fields(8) [OF assms(1)] assms(2) ex)
  show ?thesis
    using q t by (simp add: startTimer_fields [OF assms(1)])
qed

text \<open>Start-up with the default of 5 minutes: 299999 ms pass, or 800000 ms.\<close>

theorem startTimer_fires_once_after_interval_witness:
  "single_timer (loadSettings fresh) \<and>
   timeInterval (settings (loadSettings fresh)) = Num 5 \<and>
   (5::int) * 60000 \<le> 2147483647 \<and>
   timeouts (onload fresh) = [\<lparr>handle = 1, set_at = 0, delay = Num 300000\<rparr>] \<and>
   quizzes (run [Elapse 100000, Elapse 199999] (onload fresh)) = 0 \<and>
   quizzes (run [Elapse 100000, Elapse 200000, Elapse 500000] (onload fresh)) = 1"
proof -
  have s: "single_timer (loadSettings fresh)"
    by (simp add: single_timer_def loadSettings_def fresh_def)
  have t: "timeInterval (settings (loadSettings fresh)) = Num 5"
    by (simp add: loadSettings_def fresh_def DEFAULT_SETTINGS_def)
  have f: "quizzes (loadSettings fresh) = 0" "next_handle (loadSettings fresh) = 1"
    "clock (loadSettings fresh) = 0"
    by (simp_all add: loadSettings_def fresh_def)
  have n: "(0::int) < 5" by simp
  have r: "(5::int) * 60000 \<le> 2147483647" by simp
  note th = startTimer_fires_once_after_interval [OF s t n r, folded onload_def]
  from th have a: "timeouts (onload fresh) = [\<lparr>handle = 1, set_at = 0, delay = Num 300000\<rparr>]"
    by (simp add: f)
  from th have q: "quizzes (run (map Elapse ds) (onload fresh))
                     = (if 300000 \<le> sum_list ds then 1 else 0)" for ds
    by (simp add: f)
  have b: "quizzes (run (map Elapse [100000, 199999]) (onload fresh)) = 0"
    using q [of "[100000, 199999]"] by simp
  have c: "quizzes (run (map Elapse [100000, 200000, 500000]) (onload fresh)) = 1"
    using q [of "[100000, 200000, 500000]"] by simp
  show ?thesis using s t a b c by simp
qed

text \<open>
  Claim C3 as it was stated is for every interval. After start-up the settings tab
  stores the interval \<^verbatim>\<open>35792\<close>; the next \<open>startTimer\<close> asks for 2147520000 ms, which
  is more than a signed 32-bit number holds, and the quiz is triggered within a second.
\<close>

theorem long_interval_fires_at_once:
  "single_timer (onChange TimeInterval (js ''35792'') (onload fresh)) \<and>
   timeInterval (settings (onChange TimeInterval (js ''35792'') (onload fresh))) = Num 35792 \<and>
   quizzes (onChange TimeInterval (js ''35792'') (onload fresh)) = 0 \<and>
   timeouts (startTimer (onChange TimeInterval (js ''35792'') (onload fresh))) =
     [\<lparr>handle = 2, set_at = 0, delay = Num 2147520000\<rparr>] \<and>
   quizzes (run [Arm, Elapse 1000] (onChange TimeInterval (js ''35792'') (onload fresh))) = 1"
  by (simp add: onChange_eq parseInt_35792 onload_fresh single_timer_def run_Cons run_Nil
      startTimer_def setTimeout_def clearTimeout_def elapse_eq due_def to_double_exact
      window_delay_wraps)

subsection \<open>C4: at most one pending timeout\<close>



subsection \<open>C5: updating a settings field\<close>

text \<open>
  Claim C5, as amended. For every settings field and every input value, the update
  validates nothing: it stores \<^verbatim>\<open>parseInt(value)\<close> in the field, whatever it is, leaves
  the other field unchanged, persists the settings at once and reports no error. The
  prior value is replaced also when the input is not a positive number. For the
  decimal numeral of a natural number the value stored is the double nearest to the
  number (\<^verbatim>\<open>Infinity\<close> when the number is too large for a double); for a valid value,
  a positive integer below \<open>2 ^ 53\<close>, it is the number itself.
\<close>

theorem onChange_stores_parseInt_unvalidated:
  "get_field f (settings (onChange f v w)) = parseInt v \<and>
   get_field (other f) (settings (onChange f v w)) = get_field (other f) (settings w) \<and>
   data (onChange f v w) =
     Some \<lparr>p_timeInterval = Some (to_json (timeInterval (settings (onChange f v w)))),
           p_wordCountThreshold = Some (to_json (wordCountThreshold (settings (onChange f v w))))\<rparr> \<and>
   unhandled (onChange f v w) = unhandled w \<and>
   get_field f (settings (onChange f (decimal k) w)) = to_double (int k) \<and>
   (valid_value n \<longrightarrow> get_field f (settings (onChange f (decimal (nat n)) w)) = Num n)"
proof -
  have valid: "get_field f (settings (onChange f (decimal (nat n)) w)) = Num n"
    if "valid_value n"
  proof -
    have "int (nat n) = n" using that by (simp add: valid_value_def)
    then show ?thesis
      by (simp only: onChange_field parseInt_decimal to_double_valid [OF that])
  qed
  show ?thesis
    using valid
    by (simp add: onChange_field onChange_other onChange_frame parseInt_decimal
        flip: onChange_data)
qed

text \<open>
  After start-up, the time interval is set to \<^verbatim>\<open>7\<close>, or to \<open>2 ^ 53 + 1\<close>, which is
  stored as \<open>2 ^ 53\<close>.
\<close>

theorem onChange_stores_parseInt_unvalidated_witness:
  "valid_value 7 \<and>
   timeInterval (settings (onChange TimeInterval (js ''7'') (onload fresh))) = Num 7 \<and>
   wordCountThreshold (settings (onChange TimeInterval (js ''7'') (onload fresh))) = Num 500 \<and>
   data (onChange TimeInterval (js ''7'') (onload fresh)) =
     Some \<lparr>p_timeInterval = Some (JNumber 7), p_wordCountThreshold = Some (JNumber 500)\<rparr> \<and>
   timeInterval (settings (onChange TimeInterval (js ''9007199254740993'') (onload fresh)))
     = Num 9007199254740992"
proof -
  have v: "valid_value 7" by (simp add: valid_value_def)
  have o: "wordCountThreshold (settings (onload fresh)) = Num 500" by (simp add: onload_fresh)
  have small: "timeInterval (settings (onChange TimeInterval (js ''7'') (onload fresh))) = Num 7 \<and>
      wordCountThreshold (settings (onChange TimeInterval (js ''7'') (onload fresh))) = Num 500 \<and>
      data (onChange TimeInterval (js ''7'') (onload fresh)) =
        Some \<lparr>p_timeInterval = Some (JNumber 7), p_wordCountThreshold = Some (JNumber 500)\<rparr>"
    using onChange_stores_parseInt_unvalidated [of TimeInterval "js ''7''" "onload fresh" 7 7] v o
    by (simp add: decimal_7 parseInt_7)
  have big: "timeInterval (settings (onChange TimeInterval (js ''9007199254740993'') (onload fresh)))
      = Num 9007199254740992"
    using onChange_stores_parseInt_unvalidated
      [of TimeInterval "js ''7''" "onload fresh" 9007199254740993 7]
    by (simp add: decimal_2_53_1 to_double_2_53_1)
  show ?thesis using v small big by simp
qed

text \<open>
  Claim C5 as it was stated says that an invalid input leaves the prior value
  unchanged. After start-up the time interval is 5; the input \<^verbatim>\<open>abc\<close> replaces it by
  \<^verbatim>\<open>NaN\<close>, which is persisted (as \<^verbatim>\<open>null\<close>), and nothing is reported.
\<close>

theorem invalid_input_overwrites_setting:
  "timeInterval (settings (onload fresh)) = Num 5 \<and>
   timeInterval (settings (onChange TimeInterval (js ''abc'') (onload fresh))) = NaN \<and>
   data (onChange TimeInterval (js ''abc'') (onload fresh)) =
     Some \<lparr>p_timeInterval = Some JNull, p_wordCountThreshold = Some (JNumber 500)\<rparr> \<and>
   unhandled (onChange TimeInterval (js ''abc'') (onload fresh)) = []"
  by (simp add: onChange_eq parseInt_abc onload_fresh)

subsection \<open>C6: a failed read\<close>

text \<open>
  Claim C6, as amended. For every change event, if the host's content read fails, the
  evaluation of the event is abandoned: \<open>triggerQuiz\<close> does not run, and every later
  event has the effect it would have had without the failed one. The failure is not
  caught: the promise of \<open>handleNoteChange\<close> rejects with the read error, and the
  listener, which drops that promise, leaves the rejection unhandled.
\<close>

theorem read_failure_rejects_and_triggers_nothing:
  "handleNoteChange (Inl e) w = Inl e \<and>
   on_modify (Inl e) w = w\<lparr>unhandled := unhandled w @ [e]\<rparr> \<and>
   quizzes (on_modify (Inl e) w) = quizzes w \<and>
   (run es (on_modify (Inl e) w))\<lparr>unhandled := []\<rparr> = (run es w)\<lparr>unhandled := []\<rparr>"
proof -
  have m: "on_modify (Inl e) w = w\<lparr>unhandled := unhandled w @ [e]\<rparr>"
    by (simp add: on_modify_def handleNoteChange_def)
  have "(run es (w\<lparr>unhandled := unhandled w @ [e]\<rparr>))\<lparr>unhandled := []\<rparr>
          = (run es w)\<lparr>unhandled := []\<rparr>"
    by (rule unhandled_irrelevant_run) simp
  then show ?thesis using m by (simp add: handleNoteChange_def)
qed

text \<open>
  Claim C6 as it was stated says that no error propagates. After start-up, a failed
  read makes \<open>handleNoteChange\<close> return the error, and the listener leaves one
  unhandled rejection behind.
\<close>

theorem read_failure_propagates:
  "handleNoteChange (Inl ContentReadError) (onload fresh) = Inl ContentReadError \<and>
   unhandled (onload fresh) = [] \<and>
   unhandled (on_modify (Inl ContentReadError) (onload fresh)) = [ContentReadError]"
  by (simp add: handleNoteChange_def on_modify_def onload_fresh)

subsection \<open>C7: the invariant of the settings\<close>

text \<open>
  Claim C7, as amended. If no configuration is persisted, both fields take the defaults
  of 5 minutes and 500 words after load, and both are positive. After an update the
  field updated is positive if and only if the input parses to a positive number, and
  settings that were positive stay so under such an update. When the settings were
  finite and positive and the input parses to a finite positive number, both fields
  are finite and positive after the update and after a later load. An input that
  parses to \<^verbatim>\<open>Infinity\<close> is stored as a positive value, and the later load gives
  \<^verbatim>\<open>null\<close> for it.
\<close>

theorem settings_positive_iff_input_positive:
  "(data w = None \<longrightarrow>
      settings (loadSettings w) = \<lparr>timeInterval = Num 5, wordCountThreshold = Num 500\<rparr> \<and>
      positive_settings (settings (loadSettings w))) \<and>
   (is_positive (get_field f (settings (onChange f v w))) \<longleftrightarrow> is_positive (parseInt v)) \<and>
   (positive_settings (settings w) \<and> is_positive (parseInt v) \<longrightarrow>
      positive_settings (settings (onChange f v w))) \<and>
   (finite_positive_settings (settings w) \<and> finite_positive (parseInt v) \<longrightarrow>
      finite_positive_settings (settings (onChange f v w)) \<and>
      finite_positive_settings (settings (loadSettings (onChange f v w))) \<and>
      positive_settings (settings (loadSettings (onChange f v w)))) \<and>
   (parseInt v = PosInf \<longrightarrow>
      is_positive (get_field f (settings (onChange f v w))) \<and>
      get_field f (settings (loadSettings (onChange f v w))) = Null)"
proof -
  have a: "settings (loadSettings w) = \<lparr>timeInterval = Num 5, wordCountThreshold = Num 500\<rparr>"
    if "data w = None"
    using that by (simp add: loadSettings_def DEFAULT_SETTINGS_def)
  have b: "positive_settings (settings (onChange f v w))"
    if "positive_settings (settings w)" "is_positive (parseInt v)"
    using that by (cases f) (simp_all add: onChange_eq positive_settings_def)
  have c: "finite_positive_settings (settings (onChange f v w))"
    if "finite_positive_settings (settings w)" "finite_positive (parseInt v)"
    using that by (cases f) (simp_all add: onChange_eq finite_positive_settings_def)
  have d: "finite_positive_settings (settings (loadSettings (onChange f v w)))"
    if "finite_positive_settings (settings (onChange f v w))"
    using that load_after_save [of "onChange f v w"]
    by (simp add: saveSettings_onChange finite_positive_settings_def
        finite_positive_of_json_to_json)
  have e: "get_field f (settings (loadSettings (onChange f v w))) = Null"
    if "parseInt v = PosInf"
    using that get_field_load_after_save [of f "onChange f v w"]
    by (simp add: saveSettings_onChange onChange_field)
  have g: "is_positive (get_field f (settings (onChange f v w)))" if "parseInt v = PosInf"
    using that by (simp add: onChange_field)
  show ?thesis
    using a b c d e g finite_positive_settings_positive
    by (auto simp: onChange_field positive_settings_def)
qed

text \<open>
  A load with no data file; then the threshold is set to \<^verbatim>\<open>42\<close>, or to the numeral
  of 309 digits \<^verbatim>\<open>9\<close>.
\<close>

theorem settings_positive_iff_input_positive_witness:
  "positive_settings (settings (loadSettings fresh)) \<and>
   positive_settings (settings (onChange WordCountThreshold (js ''42'') (onload fresh))) \<and>
   positive_settings (settings (loadSettings (onChange WordCountThreshold (js ''42'') (onload fresh)))) \<and>
   is_positive (wordCountThreshold (settings
     (onChange WordCountThreshold (replicate 309 0x39) (onload fresh)))) \<and>
   wordCountThreshold (settings (loadSettings
     (onChange WordCountThreshold (replicate 309 0x39) (onload fresh)))) = Null"
proof -
  have p: "positive_settings (settings (onload fresh))"
    "finite_positive_settings (settings (onload fresh))"
    by (simp_all add: onload_fresh positive_settings_def finite_positive_settings_def)
  have i: "is_positive (parseInt (js ''42''))" "finite_positive (parseInt (js ''42''))"
    by (simp_all add: parseInt_42)
  have d: "data fresh = None" by (simp add: fresh_def)
  have small: "positive_settings (settings (loadSettings fresh)) \<and>
      positive_settings (settings (onChange WordCountThreshold (js ''42'') (onload fresh))) \<and>
      positive_settings (settings (loadSettings
        (onChange WordCountThreshold (js ''42'') (onload fresh))))"
    using settings_positive_iff_input_positive [of fresh WordCountThreshold "js ''42''"]
      settings_positive_iff_input_positive [of "onload fresh" WordCountThreshold "js ''42''"] p i d
    by (simp add: positive_settings_def)
  have big: "is_positive (wordCountThreshold (settings
        (onChange WordCountThreshold (replicate 309 0x39) (onload fresh)))) \<and>
      wordCountThreshold (settings (loadSettings
        (onChange WordCountThreshold (replicate 309 0x39) (onload fresh)))) = Null"
    using settings_positive_iff_input_positive
      [of "onload fresh" WordCountThreshold "replicate 309 0x39"] parseInt_309_nines
    by simp
  show ?thesis using small big by simp
qed

text \<open>
  Claim C7 as it was stated says that both fields are positive after every update.
  After start-up, the input \<^verbatim>\<open>0\<close> for the threshold is stored: the settings are
  positive no more, and they are not after the next load either.
\<close>

theorem zero_threshold_is_stored:
  "positive_settings (settings (onload fresh)) \<and>
   wordCountThreshold (settings (onChange WordCountThreshold (js ''0'') (onload fresh))) = Num 0 \<and>
   \<not> positive_settings (settings (onChange WordCountThreshold (js ''0'') (onload fresh))) \<and>
   \<not> positive_settings (settings (loadSettings (onChange WordCountThreshold (js ''0'') (onload fresh))))"
  by (simp add: onChange_eq parseInt_0 onload_fresh positive_settings_def loadSettings_def)

subsection \<open>C8: no rearming after expiry\<close>

text \<open>
  Claim C8. After \<open>startTimer\<close> and the passing of the delay, \<open>triggerQuiz\<close> has run
  exactly once and nothing is pending. After any further events other than a call of
  \<open>startTimer\<close>, still nothing is pending, so that the passing of time triggers no quiz;
  however long the wait, the count stays at one.
\<close>

theorem no_rearm_after_expiry:
  assumes "single_timer w" and "arm_delay w \<le> d" and "Arm \<notin> set es"
  shows "quizzes (elapse d (startTimer w)) = quizzes w + 1 \<and>
         timeouts (elapse d (startTimer w)) = [] \<and>
         timeouts (run es (elapse d (startTimer w))) = [] \<and>
         (\<forall>d'. quizzes (elapse d' (run es (elapse d (startTimer w))))
                 = quizzes (run es (elapse d (startTimer w)))) \<and>
         (\<forall>ds. quizzes (run (map Elapse ds) (elapse d (startTimer w))) = quizzes w + 1)"
proof -
  let ?w = "elapse d (startTimer w)"
  have fired: "quizzes ?w = quizzes w + 1" and none: "timeouts ?w = []"
    using assms(2) by (simp_all add: elapse_startTimer [OF assms(1)])
  have later: "timeouts (run es ?w) = []"
    using none assms(3) by (rule no_arm_keeps_empty)
  have quiet: "quizzes (elapse d' (run es ?w)) = quizzes (run es ?w)" for d'
    using later by (rule elapse_nothing_pending)
  have wait: "quizzes (run (map Elapse ds) ?w) = quizzes w + 1" for ds
  proof (cases "ds = []")
    case True
    then show ?thesis using fired by (simp add: run_Nil)
  next
    case False
    then show ?thesis
      using fired none by (simp add: run_Elapse elapse_nothing_pending)
  qed
  show ?thesis using fired none later quiet wait by simp
qed

text \<open>The default interval expires; then the interval is edited and a day passes.\<close>

theorem no_rearm_after_expiry_witness:
  "single_timer fresh \<and> arm_delay fresh \<le> 300000 \<and>
   quizzes (elapse 300000 (startTimer fresh)) = 1 \<and>
   timeouts (run [Change TimeInterval (js ''7''), Elapse 900000] (elapse 300000 (startTimer fresh))) = [] \<and>
   quizzes (run (map Elapse [300000, 300000, 86400000]) (elapse 300000 (startTimer fresh))) = 1"
proof -
  have d: "arm_delay fresh \<le> 300000"
    by (simp add: arm_delay_fresh)
  have e: "Arm \<notin> set [Change TimeInterval (js ''7''), Elapse 900000]" by simp
  have f: "quizzes fresh = 0" by (simp add: fresh_def)
  note th = no_rearm_after_expiry [OF single_timer_fresh d e]
  from th have a: "quizzes (elapse 300000 (startTimer fresh)) = 1"
    by (simp add: f)
  from th have b: "timeouts (run [Change TimeInterval (js ''7''), Elapse 900000]
      (elapse 300000 (startTimer fresh))) = []"
    by simp
  from th have "\<forall>ds. quizzes (run (map Elapse ds) (elapse 300000 (startTimer fresh))) = 1"
    by (simp add: f)
  then have c: "quizzes (run (map Elapse [300000, 300000, 86400000])
      (elapse 300000 (startTimer fresh))) = 1"
    by (rule spec)
  show ?thesis using a b c d single_timer_fresh by simp
qed

subsection \<open>C9: the round trip of the settings\<close>

text \<open>
  Claim C9, as amended. For every positive integer \<open>v\<close> that a JavaScript number holds
  exactly, entered as its decimal numeral, and every field: load, then update the field
  with \<open>v\<close>, then save, then load again. The field is \<open>v\<close>, and the other field is what
  the first load gave.
\<close>

theorem settings_round_trip:
  assumes "valid_value v"
  shows "get_field f (settings (loadSettings (saveSettings
           (onChange f (decimal (nat v)) (loadSettings w))))) = Num v \<and>
         get_field (other f) (settings (loadSettings (saveSettings
           (onChange f (decimal (nat v)) (loadSettings w)))))
           = get_field (other f) (settings (loadSettings w))"
proof -
  let ?u = "onChange f (decimal (nat v)) (loadSettings w)"
  have "get_field f (settings ?u) = Num v"
    using assms to_double_valid [OF assms]
    by (simp add: onChange_field parseInt_decimal valid_value_def)
  then have one: "get_field f (settings (loadSettings (saveSettings ?u))) = Num v"
    by (simp add: get_field_load_after_save)
  have "get_field (other f) (settings ?u) = get_field (other f) (settings (loadSettings w))"
    by (rule onChange_other)
  then have two: "get_field (other f) (settings (loadSettings (saveSettings ?u)))
                    = get_field (other f) (settings (loadSettings w))"
    by (simp add: get_field_load_after_save loadSettings_storable)
  show ?thesis using one two by simp
qed

text \<open>With no data file, the threshold is set to \<^verbatim>\<open>42\<close>.\<close>

theorem settings_round_trip_witness:
  "valid_value 42 \<and>
   wordCountThreshold (settings (loadSettings (saveSettings
      (onChange WordCountThreshold (js ''42'') (loadSettings fresh))))) = Num 42 \<and>
   timeInterval (settings (loadSettings (saveSettings
      (onChange WordCountThreshold (js ''42'') (loadSettings fresh))))) = Num 5"
proof -
  have v: "valid_value 42" by (simp add: valid_value_def)
  have l: "timeInterval (settings (loadSettings fresh)) = Num 5"
    by (simp add: loadSettings_def fresh_def DEFAULT_SETTINGS_def)
  show ?thesis
    using settings_round_trip [OF v, of WordCountThreshold fresh] v l
    by (simp add: decimal_42 parseInt_42)
qed

text \<open>
  Claim C9 as it was stated is for every valid value, and the time interval is a
  positive number of minutes, not only a whole one. Both fields are read with
  \<^verbatim>\<open>parseInt\<close>: the input \<^verbatim>\<open>2.5\<close> for the time interval is stored as 2, and 2 is
  what the next load gives.
\<close>

theorem fractional_interval_is_truncated:
  "timeInterval (settings (onChange TimeInterval (js ''2.5'') (loadSettings fresh))) = Num 2 \<and>
   timeInterval (settings (loadSettings (saveSettings
      (onChange TimeInterval (js ''2.5'') (loadSettings fresh))))) = Num 2"
  by (simp add: onChange_eq parseInt_2_5 loadSettings_def saveSettings_def)

subsection \<open>C10: the settings tab does not touch the timer\<close>

text \<open>
  Claim C10. An update of either settings field changes neither \<open>timer\<close> nor the
  pending timeouts, with their delays, nor the clock: the quizzes that the passing of
  time triggers, and the timeouts left pending, are the same as without the update. A
  new time interval is the delay of the timeout that the next \<open>startTimer\<close> sets.
\<close>

theorem onChange_leaves_timer_alone:
  "timer (onChange f v w) = timer w \<and>
   timeouts (onChange f v w) = timeouts w \<and>
   clock (onChange f v w) = clock w \<and>
   quizzes (elapse d (onChange f v w)) = quizzes (elapse d w) \<and>
   timeouts (elapse d (onChange f v w)) = timeouts (elapse d w) \<and>
   last (timeouts (startTimer (onChange TimeInterval v w))) =
     \<lparr>handle = next_handle w, set_at = clock w, delay = js_times (parseInt v) 60000\<rparr>"
  using onChange_field [of TimeInterval v w] onChange_frame [of TimeInterval v w]
  by (simp add: onChange_frame elapse_eq last_timeouts_startTimer)

text \<open>
  After start-up the interval is set to 7 minutes: the pending timeout keeps its delay
  of 300000 ms and triggers the quiz when these have passed; the next \<open>startTimer\<close>
  asks for 420000 ms.
\<close>

theorem onChange_leaves_timer_alone_witness:
  "timeouts (onChange TimeInterval (js ''7'') (onload fresh)) =
     [\<lparr>handle = 1, set_at = 0, delay = Num 300000\<rparr>] \<and>
   quizzes (elapse 299999 (onChange TimeInterval (js ''7'') (onload fresh))) = 0 \<and>
   quizzes (elapse 300000 (onChange TimeInterval (js ''7'') (onload fresh))) = 1 \<and>
   last (timeouts (startTimer (onChange TimeInterval (js ''7'') (onload fresh)))) =
     \<lparr>handle = 2, set_at = 0, delay = Num 420000\<rparr>"
proof -
  have e: "quizzes (elapse 299999 (onload fresh)) = 0" "quizzes (elapse 300000 (onload fresh)) = 1"
    by (simp_all add: elapse_eq onload_fresh due_def timeout_ms_def)
  show ?thesis
    using onChange_leaves_timer_alone [of TimeInterval "js ''7''" "onload fresh" 299999]
      onChange_leaves_timer_alone [of TimeInterval "js ''7''" "onload fresh" 300000] e
    by (simp add: onload_fresh parseInt_7 to_double_exact)
qed

end
